theory Spec2Isabelle
  imports Complex_Main
begin

section \<open>Data model of \<^verbatim>\<open>backend/app.py\<close>\<close>

text \<open>
  The handler \<^verbatim>\<open>predict\<close> builds a list of findings, one dictionary
  \<^verbatim>\<open>{'class': ..., 'confidence': ..., 'model': ...}\<close> each, from the output of two
  models, and reduces the list to one JSON answer. Confidences are Python floats; the
  handler only compares them (\<^verbatim>\<open>>\<close>), and a comparison of two finite floats is the
  comparison of the numbers they denote, so a confidence is a \<^typ>\<open>real\<close> here.
  NaN is not a value of this model.
\<close>

datatype py_exc = IndexError | AttributeError | ValueError | LibraryError string

record finding =
  d_class :: string
  d_confidence :: real
  d_model :: string

record aggregate_result =
  prediction :: string
  confidence :: real
  all_detections :: "finding list"
  total_diseases :: nat

text \<open>
  The body of a response: \<^verbatim>\<open>{'error': <literal>}\<close>, \<^verbatim>\<open>{'error': str(e)}\<close> for a caught
  exception \<open>e\<close> (the text of \<^verbatim>\<open>str(e)\<close> is left symbolic), or the aggregate.
\<close>

datatype body = Error string | ErrorStr py_exc | Json aggregate_result

record response =
  status :: nat
  body :: body

subsection \<open>What the handler reads from its environment\<close>

text \<open>
  A result object of the inference library has the attributes \<^verbatim>\<open>boxes\<close> and
  \<^verbatim>\<open>probs\<close>; an attribute may be absent, \<^verbatim>\<open>None\<close>, or an object. The boxes are the
  rows of one tensor, so \<^verbatim>\<open>boxes.conf[i]\<close> and \<^verbatim>\<open>boxes.cls[i]\<close> are the two
  fields of row \<open>i\<close>, and \<^verbatim>\<open>len(boxes)\<close> is the number of rows.
\<close>

datatype 'a py_attr = NoAttr | PyNone | Obj 'a

record box =
  b_conf :: real
  b_cls :: real

record probs_t =
  top5 :: "int list"
  top5conf :: "real list"

record results =
  boxes :: "box list py_attr"
  probs :: "probs_t py_attr"

type_synonym bytes = "nat list"
type_synonym image = "nat list"
type_synonym model = "image \<Rightarrow> py_exc + results list"

text \<open>
  The module-level globals set by the two loading blocks (lines 33 to 53), and the image
  decoder \<^verbatim>\<open>Image.open(...).convert('RGB')\<close>. A model that failed to load is \<open>None\<close>.
\<close>

record env =
  model1 :: "model option"
  model1_type :: "string option"
  model2 :: "model option"
  model2_type :: "string option"
  image_open :: "bytes \<Rightarrow> py_exc + image"

record upload =
  filename :: string
  content :: bytes

type_synonym files = "string \<rightharpoonup> upload"

text \<open>The calls the handler makes to its collaborators, in the order it makes them.\<close>

datatype call = ImageOpen | Model1Predict | Model2Predict

section \<open>The code\<close>

definition class_names_1 :: "string list" where
  "class_names_1 =
     [''bud root dropping'', ''bud rot'', ''gray leaf spot'', ''leaf rot'', ''stembleeding'']"

definition class_names_2 :: "string list" where
  "class_names_2 =
     [''caterpillars'', ''drying'', ''flaccidity'', ''healthy'', ''leaflet'', ''yellowing'']"

text \<open>\<^verbatim>\<open>xs[i]\<close> on a Python list: an index from \<open>-len\<close> to \<open>-1\<close> counts from the end.\<close>

definition py_getitem :: "'a list \<Rightarrow> int \<Rightarrow> py_exc + 'a" where
  "py_getitem xs i =
     (if 0 \<le> i \<and> i < int (length xs) then Inr (xs ! nat i)
      else if i < 0 \<and> - int (length xs) \<le> i then Inr (xs ! nat (int (length xs) + i))
      else Inl IndexError)"

text \<open>\<^verbatim>\<open>int(x)\<close> on a float rounds toward zero.\<close>

definition py_int :: "real \<Rightarrow> int" where
  "py_int x = (if 0 \<le> x then \<lfloor>x\<rfloor> else \<lceil>x\<rceil>)"

text \<open>
  The float literal \<^verbatim>\<open>0.1\<close> of line 111 denotes the double nearest to one tenth,
  \<open>3602879701896397 / 2 ^ 55\<close>.
\<close>

definition py_float_0_1 :: real where
  "py_float_0_1 = 3602879701896397 / 36028797018963968"

text \<open>Lines 86 to 94: one finding per box, appended to the list.\<close>

fun detection_loop :: "box list \<Rightarrow> finding list \<Rightarrow> py_exc + finding list" where
  "detection_loop [] dets = Inr dets"
| "detection_loop (b # bs) dets =
     (case py_getitem class_names_1 (py_int (b_cls b)) of
        Inl e \<Rightarrow> Inl e
      | Inr name \<Rightarrow>
          detection_loop bs
            (dets @ [\<lparr>d_class = name, d_confidence = b_conf b, d_model = ''detection''\<rparr>]))"

text \<open>Lines 82 to 94.\<close>

definition run_model1 :: "env \<Rightarrow> image \<Rightarrow> finding list \<Rightarrow> (py_exc + finding list) \<times> call list" where
  "run_model1 e img dets =
     (case model1 e of
        None \<Rightarrow> (Inr dets, [])
      | Some m \<Rightarrow>
          if model1_type e \<noteq> Some ''detection'' then (Inr dets, [])
          else
            (case m img of
               Inl x \<Rightarrow> (Inl x, [Model1Predict])
             | Inr results1 \<Rightarrow>
                 ((case results1 of
                     [] \<Rightarrow> Inr dets
                   | r # _ \<Rightarrow>
                       (case boxes r of
                          NoAttr \<Rightarrow> Inl AttributeError
                        | PyNone \<Rightarrow> Inr dets
                        | Obj boxes1 \<Rightarrow>
                            if 0 < length boxes1 \<and> 0 < length boxes1
                            then detection_loop boxes1 dets
                            else Inr dets)),
                  [Model1Predict])))"

text \<open>Lines 105 to 117: the pairs of \<^verbatim>\<open>zip(top5_indices, top5_conf)\<close>, in order.\<close>

fun classification_loop :: "(int \<times> real) list \<Rightarrow> finding list \<Rightarrow> py_exc + finding list" where
  "classification_loop [] dets = Inr dets"
| "classification_loop ((idx, c) # rest) dets =
     (case py_getitem class_names_2 idx of
        Inl e \<Rightarrow> Inl e
      | Inr disease \<Rightarrow>
          if c > py_float_0_1
          then classification_loop rest
                 (dets @ [\<lparr>d_class = disease, d_confidence = c, d_model = ''classification''\<rparr>])
          else classification_loop rest dets)"

text \<open>Lines 97 to 117.\<close>

definition run_model2 :: "env \<Rightarrow> image \<Rightarrow> finding list \<Rightarrow> (py_exc + finding list) \<times> call list" where
  "run_model2 e img dets =
     (case model2 e of
        None \<Rightarrow> (Inr dets, [])
      | Some m \<Rightarrow>
          if model2_type e \<noteq> Some ''classify'' then (Inr dets, [])
          else
            (case m img of
               Inl x \<Rightarrow> (Inl x, [Model2Predict])
             | Inr results2 \<Rightarrow>
                 ((case results2 of
                     [] \<Rightarrow> Inr dets
                   | r # _ \<Rightarrow>
                       (case probs r of
                          NoAttr \<Rightarrow> Inr dets
                        | PyNone \<Rightarrow> Inl AttributeError
                        | Obj p \<Rightarrow> classification_loop (zip (top5 p) (top5conf p)) dets)),
                  [Model2Predict])))"

text \<open>
  \<^verbatim>\<open>max(xs, key=lambda x: x['confidence'])\<close>: the running maximum is replaced only by
  an item whose key is strictly greater, and an empty argument raises.
\<close>

fun max_loop :: "finding \<Rightarrow> finding list \<Rightarrow> finding" where
  "max_loop best [] = best"
| "max_loop best (x # xs) =
     max_loop (if d_confidence x > d_confidence best then x else best) xs"

definition py_max_confidence :: "finding list \<Rightarrow> py_exc + finding" where
  "py_max_confidence xs = (case xs of [] \<Rightarrow> Inl ValueError | x # rest \<Rightarrow> Inr (max_loop x rest))"

text \<open>Line 121.\<close>

definition non_healthy :: "finding list \<Rightarrow> finding list" where
  "non_healthy dets = filter (\<lambda>d. d_class d \<noteq> ''healthy'') dets"

text \<open>Lines 119 to 154: the aggregation of the finding list into the answer.\<close>

definition aggregate :: "finding list \<Rightarrow> py_exc + aggregate_result" where
  "aggregate dets =
     (if non_healthy dets \<noteq> [] then
        (case py_max_confidence (non_healthy dets) of
           Inl e \<Rightarrow> Inl e
         | Inr best_detection \<Rightarrow>
             Inr \<lparr>prediction = d_class best_detection,
                  confidence = d_confidence best_detection,
                  all_detections = dets,
                  total_diseases = length (non_healthy dets)\<rparr>)
      else if dets \<noteq> [] then
        (case py_max_confidence dets of
           Inl e \<Rightarrow> Inl e
         | Inr best_detection \<Rightarrow>
             Inr \<lparr>prediction = ''healthy'',
                  confidence = d_confidence best_detection,
                  all_detections = dets,
                  total_diseases = 0\<rparr>)
      else
        Inr \<lparr>prediction = ''healthy'', confidence = 0.5, all_detections = [],
             total_diseases = 0\<rparr>)"

text \<open>Lines 74 to 160: the body of the \<^verbatim>\<open>try\<close>, and its \<^verbatim>\<open>except\<close>.\<close>

definition predict_try :: "env \<Rightarrow> upload \<Rightarrow> response \<times> call list" where
  "predict_try e file =
     (case image_open e (content file) of
        Inl x \<Rightarrow> (\<lparr>status = 500, body = ErrorStr x\<rparr>, [ImageOpen])
      | Inr img \<Rightarrow>
          (case run_model1 e img [] of
             (Inl x, c1) \<Rightarrow> (\<lparr>status = 500, body = ErrorStr x\<rparr>, ImageOpen # c1)
           | (Inr dets1, c1) \<Rightarrow>
               (case run_model2 e img dets1 of
                  (Inl x, c2) \<Rightarrow> (\<lparr>status = 500, body = ErrorStr x\<rparr>, ImageOpen # c1 @ c2)
                | (Inr dets2, c2) \<Rightarrow>
                    (case aggregate dets2 of
                       Inl x \<Rightarrow> (\<lparr>status = 500, body = ErrorStr x\<rparr>, ImageOpen # c1 @ c2)
                     | Inr r \<Rightarrow> (\<lparr>status = 200, body = Json r\<rparr>, ImageOpen # c1 @ c2)))))"

text \<open>Lines 62 to 72, then the \<^verbatim>\<open>try\<close>.\<close>

definition predict :: "env \<Rightarrow> files \<Rightarrow> response \<times> call list" where
  "predict e request_files =
     (if model1 e = None \<and> model2 e = None
      then (\<lparr>status = 500, body = Error ''Models not loaded''\<rparr>, [])
      else
        (case request_files ''file'' of
           None \<Rightarrow> (\<lparr>status = 400, body = Error ''No file part''\<rparr>, [])
         | Some file \<Rightarrow>
             if filename file = ''''
             then (\<lparr>status = 400, body = Error ''No selected file''\<rparr>, [])
             else predict_try e file))"

section \<open>Sample inputs\<close>

text \<open>
  A service with both models loaded, whose detection model reports one box of class 1
  (\<open>bud rot\<close>) at confidence 0.8 and whose classification model ranks \<open>healthy\<close> first at
  confidence 0.9; a service with no model loaded; a service with only a classification
  model, whose ranking lists all six classes, each above confidence 0.1, and the six
  findings the handler makes of it; an upload named \<open>leaf.jpg\<close>; and an upload with an
  empty file name.
\<close>

definition both_models :: env where
  "both_models =
     \<lparr>model1 = Some (\<lambda>_. Inr [\<lparr>boxes = Obj [\<lparr>b_conf = 0.8, b_cls = 1\<rparr>], probs = PyNone\<rparr>]),
      model1_type = Some ''detection'',
      model2 = Some (\<lambda>_. Inr [\<lparr>boxes = PyNone,
                 probs = Obj \<lparr>top5 = [3, 5, 0, 1, 2],
                              top5conf = [0.9, 0.05, 0.03, 0.01, 0.01]\<rparr>\<rparr>]),
      model2_type = Some ''classify'',
      image_open = (\<lambda>_. Inr [])\<rparr>"

definition no_models :: env where
  "no_models =
     \<lparr>model1 = None, model1_type = None, model2 = None, model2_type = None,
      image_open = (\<lambda>_. Inr [])\<rparr>"



definition leaf_upload :: files where
  "leaf_upload = [''file'' \<mapsto> \<lparr>filename = ''leaf.jpg'', content = []\<rparr>]"

definition unnamed_upload :: files where
  "unnamed_upload = [''file'' \<mapsto> \<lparr>filename = '''', content = []\<rparr>]"

section \<open>The selection of the maximum\<close>

lemma max_loop_split:
  "\<exists>pre post. b # xs = pre @ max_loop b xs # post \<and>
     (\<forall>d\<in>set pre. d_confidence d < d_confidence (max_loop b xs)) \<and>
     (\<forall>d\<in>set post. d_confidence d \<le> d_confidence (max_loop b xs))"
proof (induction xs arbitrary: b)
  case Nil
  show ?case by (intro exI [of _ "[]"]) simp
next
  case (Cons x xs)
  define b' where "b' = (if d_confidence x > d_confidence b then x else b)"
  define m where "m = max_loop b' xs"
  have m_eq: "max_loop b (x # xs) = m"
    by (simp add: m_def b'_def)
  from Cons.IH [of b'] obtain pre post where
    split: "b' # xs = pre @ m # post" and
    lt: "\<forall>d\<in>set pre. d_confidence d < d_confidence m" and
    le: "\<forall>d\<in>set post. d_confidence d \<le> d_confidence m"
    unfolding m_def by blast
  have b'_le: "d_confidence b' \<le> d_confidence m"
  proof -
    have "b' \<in> set (pre @ m # post)"
      using split by (metis list.set_intros(1))
    then show ?thesis using lt le by auto
  qed
  show ?case
  proof (cases "d_confidence x > d_confidence b")
    case True
    then have "b' = x" by (simp add: b'_def)
    with split have "b # x # xs = (b # pre) @ m # post" by simp
    moreover have "d_confidence b < d_confidence m"
      using True b'_le \<open>b' = x\<close> by simp
    ultimately show ?thesis
      unfolding m_eq using lt le
      by (intro exI [of _ "b # pre"] exI [of _ post]) simp
  next
    case False
    then have b': "b' = b" by (simp add: b'_def)
    show ?thesis
    proof (cases pre)
      case Nil
      with split b' have "m = b" "xs = post" by simp_all
      then have "b # x # xs = [] @ m # (x # post)" by simp
      then show ?thesis
        unfolding m_eq using le False \<open>m = b\<close>
        by (intro exI [of _ "[]"] exI [of _ "x # post"]) simp
    next
      case (Cons p pre')
      with split b' have "p = b" "xs = pre' @ m # post" by simp_all
      then have "b # x # xs = (b # x # pre') @ m # post" by simp
      moreover have "d_confidence b < d_confidence m"
        using lt Cons \<open>p = b\<close> by simp
      moreover have "\<forall>d\<in>set pre'. d_confidence d < d_confidence m"
        using lt Cons by simp
      ultimately show ?thesis
        unfolding m_eq using le False
        by (intro exI [of _ "b # x # pre'"] exI [of _ post]) auto
    qed
  qed
qed

lemma max_loop_mem: "max_loop b xs \<in> set (b # xs)"
  using max_loop_split [of b xs] by (metis in_set_conv_decomp)

lemma max_loop_ge: "d \<in> set (b # xs) \<Longrightarrow> d_confidence d \<le> d_confidence (max_loop b xs)"
proof -
  assume d: "d \<in> set (b # xs)"
  obtain pre post where
    "b # xs = pre @ max_loop b xs # post"
    "\<forall>d\<in>set pre. d_confidence d < d_confidence (max_loop b xs)"
    "\<forall>d\<in>set post. d_confidence d \<le> d_confidence (max_loop b xs)"
    using max_loop_split [of b xs] by blast
  with d show ?thesis by auto
qed

lemma py_max_confidence_total:
  "xs \<noteq> [] \<Longrightarrow> \<exists>m. py_max_confidence xs = Inr m"
  by (cases xs) (simp_all add: py_max_confidence_def)

lemma py_max_confidence_split:
  assumes "py_max_confidence xs = Inr m"
  shows "\<exists>pre post. xs = pre @ m # post \<and>
     (\<forall>d\<in>set pre. d_confidence d < d_confidence m) \<and>
     (\<forall>d\<in>set post. d_confidence d \<le> d_confidence m)"
proof (cases xs)
  case Nil
  with assms show ?thesis by (simp add: py_max_confidence_def)
next
  case (Cons b rest)
  with assms have "m = max_loop b rest" by (simp add: py_max_confidence_def)
  with Cons max_loop_split [of b rest] show ?thesis by simp
qed

lemma py_max_confidence_Max:
  assumes "py_max_confidence xs = Inr m"
  shows "d_confidence m = Max (d_confidence ` set xs)"
proof -
  from py_max_confidence_split [OF assms] obtain pre post where
    xs: "xs = pre @ m # post" and
    lt: "\<forall>d\<in>set pre. d_confidence d < d_confidence m" and
    le: "\<forall>d\<in>set post. d_confidence d \<le> d_confidence m"
    by blast
  have "Max (d_confidence ` set xs) = d_confidence m"
  proof (rule Max_eqI)
    show "finite (d_confidence ` set xs)" by simp
    show "d_confidence m \<in> d_confidence ` set xs" using xs by simp
    fix y assume "y \<in> d_confidence ` set xs"
    then show "y \<le> d_confidence m" using xs lt le by auto
  qed
  then show ?thesis by simp
qed

section \<open>The three branches of the aggregation\<close>

lemma non_healthy_nonempty:
  "(\<exists>d\<in>set dets. d_class d \<noteq> ''healthy'') \<longleftrightarrow> non_healthy dets \<noteq> []"
  by (auto simp: non_healthy_def filter_empty_conv)

lemma aggregate_non_healthy_branch:
  assumes "non_healthy dets \<noteq> []"
  shows "\<exists>m. py_max_confidence (non_healthy dets) = Inr m \<and>
           aggregate dets =
             Inr \<lparr>prediction = d_class m, confidence = d_confidence m, all_detections = dets,
                  total_diseases = length (non_healthy dets)\<rparr>"
proof -
  from py_max_confidence_total [OF assms] obtain m where
    "py_max_confidence (non_healthy dets) = Inr m" by blast
  with assms show ?thesis by (simp add: aggregate_def)
qed

lemma aggregate_healthy_branch:
  assumes "non_healthy dets = []" and "dets \<noteq> []"
  shows "\<exists>m. py_max_confidence dets = Inr m \<and>
           aggregate dets =
             Inr \<lparr>prediction = ''healthy'', confidence = d_confidence m, all_detections = dets,
                  total_diseases = 0\<rparr>"
proof -
  from py_max_confidence_total [OF assms(2)] obtain m where
    "py_max_confidence dets = Inr m" by blast
  with assms show ?thesis by (simp add: aggregate_def)
qed

lemma aggregate_empty_branch:
  "aggregate [] =
     Inr \<lparr>prediction = ''healthy'', confidence = 0.5, all_detections = [], total_diseases = 0\<rparr>"
  by (simp add: aggregate_def non_healthy_def)

section \<open>Properties of the aggregation\<close>

text \<open>
  Claim C1. Whenever the finding list has an entry whose class is not \<open>healthy\<close>, the
  aggregation succeeds; its prediction and confidence are those of one non-healthy entry
  of the list that no other non-healthy entry exceeds in confidence, and its
  \<open>total_diseases\<close> is the number of non-healthy entries.
\<close>

theorem aggregate_non_healthy_max:
  assumes "\<exists>d\<in>set dets. d_class d \<noteq> ''healthy''"
  shows "\<exists>r best. aggregate dets = Inr r \<and> best \<in> set dets \<and> d_class best \<noteq> ''healthy'' \<and>
           (\<forall>d\<in>set dets. d_class d \<noteq> ''healthy'' \<longrightarrow> d_confidence d \<le> d_confidence best) \<and>
           prediction r = d_class best \<and> confidence r = d_confidence best \<and>
           total_diseases r = length (filter (\<lambda>d. d_class d \<noteq> ''healthy'') dets)"
proof -
  from assms have ne: "non_healthy dets \<noteq> []"
    by (simp add: non_healthy_nonempty)
  from aggregate_non_healthy_branch [OF ne] obtain m where
    m: "py_max_confidence (non_healthy dets) = Inr m" and
    agg: "aggregate dets =
      Inr \<lparr>prediction = d_class m, confidence = d_confidence m, all_detections = dets,
           total_diseases = length (non_healthy dets)\<rparr>"
    by blast
  from py_max_confidence_split [OF m] obtain pre post where
    split: "non_healthy dets = pre @ m # post" and
    lt: "\<forall>d\<in>set pre. d_confidence d < d_confidence m" and
    le: "\<forall>d\<in>set post. d_confidence d \<le> d_confidence m"
    by blast
  have mem: "m \<in> set (non_healthy dets)" using split by simp
  then have m_in: "m \<in> set dets" and m_cls: "d_class m \<noteq> ''healthy''"
    by (simp_all add: non_healthy_def)
  have ge: "\<forall>d\<in>set dets. d_class d \<noteq> ''healthy'' \<longrightarrow> d_confidence d \<le> d_confidence m"
  proof (intro ballI impI)
    fix d assume "d \<in> set dets" "d_class d \<noteq> ''healthy''"
    then have "d \<in> set (pre @ m # post)"
      unfolding split [symmetric] by (simp add: non_healthy_def)
    then show "d_confidence d \<le> d_confidence m" using lt le by auto
  qed
  show ?thesis
    using agg m_in m_cls ge
    by (intro exI [of _ "\<lparr>prediction = d_class m, confidence = d_confidence m,
          all_detections = dets, total_diseases = length (non_healthy dets)\<rparr>"] exI [of _ m])
       (simp add: non_healthy_def)
qed

theorem aggregate_non_healthy_max_witness:
  "(\<exists>d\<in>set [\<lparr>d_class = ''bud rot'', d_confidence = 0.8, d_model = ''detection''\<rparr>,
              \<lparr>d_class = ''healthy'', d_confidence = 0.9, d_model = ''classification''\<rparr>].
       d_class d \<noteq> ''healthy'') \<and>
   (\<exists>r. aggregate [\<lparr>d_class = ''bud rot'', d_confidence = 0.8, d_model = ''detection''\<rparr>,
                   \<lparr>d_class = ''healthy'', d_confidence = 0.9, d_model = ''classification''\<rparr>]
         = Inr r \<and>
       prediction r = ''bud rot'' \<and> confidence r = 0.8 \<and> total_diseases r = 1)"
proof -
  let ?D = "[\<lparr>d_class = ''bud rot'', d_confidence = 0.8, d_model = ''detection''\<rparr>,
             \<lparr>d_class = ''healthy'', d_confidence = 0.9, d_model = ''classification''\<rparr>]"
  have h: "\<exists>d\<in>set ?D. d_class d \<noteq> ''healthy''" by simp
  from aggregate_non_healthy_max [OF h] obtain r best where
    r: "aggregate ?D = Inr r" and
    best: "best \<in> set ?D" "d_class best \<noteq> ''healthy''" and
    out: "prediction r = d_class best" "confidence r = d_confidence best"
      "total_diseases r = length (filter (\<lambda>d. d_class d \<noteq> ''healthy'') ?D)"
    by blast
  from best have "best = \<lparr>d_class = ''bud rot'', d_confidence = 0.8, d_model = ''detection''\<rparr>"
    by auto
  with out have "prediction r = ''bud rot''" "confidence r = 0.8" "total_diseases r = 1"
    by simp_all
  with r h show ?thesis by blast
qed

text \<open>
  Claim C2. The aggregation always succeeds, and its prediction is the class of some entry
  of the returned \<open>all_detections\<close>, unless that list is empty: then the prediction is
  \<open>healthy\<close> and the confidence is 0.5.
\<close>

theorem aggregate_prediction_present:
  "\<exists>r. aggregate dets = Inr r \<and>
     (if all_detections r = [] then prediction r = ''healthy'' \<and> confidence r = 0.5
      else prediction r \<in> d_class ` set (all_detections r))"
proof (cases "non_healthy dets = []")
  case False
  from aggregate_non_healthy_branch [OF False] obtain m where
    m: "py_max_confidence (non_healthy dets) = Inr m" and
    agg: "aggregate dets =
      Inr \<lparr>prediction = d_class m, confidence = d_confidence m, all_detections = dets,
           total_diseases = length (non_healthy dets)\<rparr>"
    by blast
  from py_max_confidence_split [OF m] have "m \<in> set (non_healthy dets)" by auto
  then have "m \<in> set dets" by (simp add: non_healthy_def)
  then have "dets \<noteq> []" "d_class m \<in> d_class ` set dets" by auto
  with agg show ?thesis by simp
next
  case True
  show ?thesis
  proof (cases "dets = []")
    case True
    then show ?thesis by (simp add: aggregate_empty_branch)
  next
    case False
    from aggregate_healthy_branch [OF True False] obtain m :: finding where
      agg: "aggregate dets =
        Inr \<lparr>prediction = ''healthy'', confidence = d_confidence m, all_detections = dets,
             total_diseases = 0\<rparr>"
      by blast
    from False obtain d where d: "d \<in> set dets" by (cases dets) auto
    with True have "d_class d = ''healthy''"
      by (auto simp: non_healthy_def filter_empty_conv)
    with d have "''healthy'' \<in> d_class ` set dets" by force
    with agg False show ?thesis by simp
  qed
qed

theorem aggregate_prediction_present_witness:
  "(\<exists>r. aggregate [\<lparr>d_class = ''healthy'', d_confidence = 0.95, d_model = ''classification''\<rparr>]
          = Inr r \<and> all_detections r \<noteq> [] \<and> prediction r \<in> d_class ` set (all_detections r)) \<and>
   (\<exists>r. aggregate [] = Inr r \<and> all_detections r = [] \<and> prediction r = ''healthy'' \<and>
        confidence r = 0.5)"
proof -
  let ?D = "[\<lparr>d_class = ''healthy'', d_confidence = 0.95, d_model = ''classification''\<rparr>]"
  from aggregate_prediction_present [of ?D] obtain r where
    r: "aggregate ?D = Inr r" and
    p: "if all_detections r = [] then prediction r = ''healthy'' \<and> confidence r = 0.5
        else prediction r \<in> d_class ` set (all_detections r)"
    by blast
  from r have ne: "all_detections r \<noteq> []"
    by (auto simp: aggregate_def non_healthy_def py_max_confidence_def)
  with p have "prediction r \<in> d_class ` set (all_detections r)" by simp
  with r ne have first: "\<exists>r. aggregate ?D = Inr r \<and> all_detections r \<noteq> [] \<and>
      prediction r \<in> d_class ` set (all_detections r)"
    by blast
  from aggregate_prediction_present [of "[]"] obtain r0 where
    r0: "aggregate [] = Inr r0" and
    p0: "if all_detections r0 = [] then prediction r0 = ''healthy'' \<and> confidence r0 = 0.5
         else prediction r0 \<in> d_class ` set (all_detections r0)"
    by blast
  from r0 have e: "all_detections r0 = []"
    by (auto simp: aggregate_def non_healthy_def)
  with p0 have "prediction r0 = ''healthy''" "confidence r0 = 0.5" by simp_all
  with r0 e have "\<exists>r. aggregate [] = Inr r \<and> all_detections r = [] \<and>
      prediction r = ''healthy'' \<and> confidence r = 0.5"
    by blast
  with first show ?thesis by blast
qed

text \<open>
  Claim C3. In every answer of the aggregation, \<open>total_diseases\<close> is the number of entries
  of the returned \<open>all_detections\<close> whose class is not \<open>healthy\<close>.
\<close>

theorem aggregate_total_diseases:
  "\<exists>r. aggregate dets = Inr r \<and>
     total_diseases r = length (filter (\<lambda>d. d_class d \<noteq> ''healthy'') (all_detections r))"
proof (cases "non_healthy dets = []")
  case False
  from aggregate_non_healthy_branch [OF False] show ?thesis
    by (auto simp: non_healthy_def)
next
  case True
  show ?thesis
  proof (cases "dets = []")
    case True
    then show ?thesis by (simp add: aggregate_empty_branch)
  next
    case False
    from aggregate_healthy_branch [OF True False] True show ?thesis
      by (auto simp: non_healthy_def)
  qed
qed

theorem aggregate_total_diseases_witness:
  "\<exists>r. aggregate [\<lparr>d_class = ''leaf rot'', d_confidence = 0.4, d_model = ''detection''\<rparr>,
                   \<lparr>d_class = ''healthy'', d_confidence = 0.7, d_model = ''classification''\<rparr>,
                   \<lparr>d_class = ''drying'', d_confidence = 0.2, d_model = ''classification''\<rparr>]
         = Inr r \<and> total_diseases r = 2"
proof -
  let ?D = "[\<lparr>d_class = ''leaf rot'', d_confidence = 0.4, d_model = ''detection''\<rparr>,
             \<lparr>d_class = ''healthy'', d_confidence = 0.7, d_model = ''classification''\<rparr>,
             \<lparr>d_class = ''drying'', d_confidence = 0.2, d_model = ''classification''\<rparr>]"
  from aggregate_total_diseases [of ?D] obtain r where
    r: "aggregate ?D = Inr r" and
    t: "total_diseases r =
          length (filter (\<lambda>d. d_class d \<noteq> ''healthy'') (all_detections r))"
    by blast
  from r have "all_detections r = ?D"
    by (auto simp: aggregate_def non_healthy_def py_max_confidence_def)
  with t have "total_diseases r = 2" by simp
  with r show ?thesis by blast
qed

text \<open>
  Claim C4. For a non-empty finding list whose entries all have class \<open>healthy\<close>, the
  answer is \<open>healthy\<close>, with the greatest confidence of the list, and no disease.
\<close>

theorem aggregate_only_healthy:
  assumes "dets \<noteq> []" and "\<forall>d\<in>set dets. d_class d = ''healthy''"
  shows "aggregate dets =
           Inr \<lparr>prediction = ''healthy'', confidence = Max (d_confidence ` set dets),
                all_detections = dets, total_diseases = 0\<rparr>"
proof -
  from assms(2) have nh: "non_healthy dets = []"
    by (simp add: non_healthy_def filter_empty_conv)
  from aggregate_healthy_branch [OF nh assms(1)] obtain m where
    m: "py_max_confidence dets = Inr m" and
    agg: "aggregate dets =
      Inr \<lparr>prediction = ''healthy'', confidence = d_confidence m, all_detections = dets,
           total_diseases = 0\<rparr>"
    by blast
  from py_max_confidence_Max [OF m] agg show ?thesis by simp
qed

theorem aggregate_only_healthy_witness:
  "[\<lparr>d_class = ''healthy'', d_confidence = 0.3, d_model = ''classification''\<rparr>,
    \<lparr>d_class = ''healthy'', d_confidence = 0.95, d_model = ''classification''\<rparr>] \<noteq> [] \<and>
   aggregate [\<lparr>d_class = ''healthy'', d_confidence = 0.3, d_model = ''classification''\<rparr>,
              \<lparr>d_class = ''healthy'', d_confidence = 0.95, d_model = ''classification''\<rparr>] =
     Inr \<lparr>prediction = ''healthy'', confidence = 0.95,
          all_detections =
            [\<lparr>d_class = ''healthy'', d_confidence = 0.3, d_model = ''classification''\<rparr>,
             \<lparr>d_class = ''healthy'', d_confidence = 0.95, d_model = ''classification''\<rparr>],
          total_diseases = 0\<rparr>"
  using aggregate_only_healthy
          [of "[\<lparr>d_class = ''healthy'', d_confidence = 0.3, d_model = ''classification''\<rparr>,
                \<lparr>d_class = ''healthy'', d_confidence = 0.95, d_model = ''classification''\<rparr>]"]
  by simp

text \<open>
  Claim C5. For the empty finding list the answer is exactly \<open>healthy\<close>, confidence 0.5,
  no detection and no disease.
\<close>

theorem aggregate_empty:
  "aggregate [] =
     Inr \<lparr>prediction = ''healthy'', confidence = 0.5, all_detections = [], total_diseases = 0\<rparr>"
  by (simp add: aggregate_def non_healthy_def)

text \<open>
  Claim C6. When the finding list has a non-healthy entry, the prediction is the class of
  the first non-healthy entry of greatest confidence in list order: every non-healthy
  entry before it has a strictly smaller confidence, and none after it has a greater one.
  This holds in particular when several entries share the greatest confidence.
\<close>

theorem aggregate_first_maximum:
  assumes "\<exists>d\<in>set dets. d_class d \<noteq> ''healthy''"
  shows "\<exists>r pre m post. aggregate dets = Inr r \<and>
           filter (\<lambda>d. d_class d \<noteq> ''healthy'') dets = pre @ m # post \<and>
           (\<forall>d\<in>set pre. d_confidence d < d_confidence m) \<and>
           (\<forall>d\<in>set post. d_confidence d \<le> d_confidence m) \<and>
           prediction r = d_class m \<and> confidence r = d_confidence m"
proof -
  from assms have ne: "non_healthy dets \<noteq> []"
    by (simp add: non_healthy_nonempty)
  from aggregate_non_healthy_branch [OF ne] obtain m where
    m: "py_max_confidence (non_healthy dets) = Inr m" and
    agg: "aggregate dets =
      Inr \<lparr>prediction = d_class m, confidence = d_confidence m, all_detections = dets,
           total_diseases = length (non_healthy dets)\<rparr>"
    by blast
  from py_max_confidence_split [OF m] obtain pre post where
    split: "non_healthy dets = pre @ m # post" and
    lt: "\<forall>d\<in>set pre. d_confidence d < d_confidence m" and
    le: "\<forall>d\<in>set post. d_confidence d \<le> d_confidence m"
    by blast
  from split have split': "filter (\<lambda>d. d_class d \<noteq> ''healthy'') dets = pre @ m # post"
    by (simp add: non_healthy_def)
  show ?thesis
    using agg split' lt le
    by (intro exI [of _ "\<lparr>prediction = d_class m, confidence = d_confidence m,
          all_detections = dets, total_diseases = length (non_healthy dets)\<rparr>"]
        exI [of _ pre] exI [of _ m] exI [of _ post]) simp
qed

theorem aggregate_first_maximum_witness:
  "(\<exists>d\<in>set [\<lparr>d_class = ''healthy'', d_confidence = 0.9, d_model = ''classification''\<rparr>,
              \<lparr>d_class = ''bud rot'', d_confidence = 0.6, d_model = ''detection''\<rparr>,
              \<lparr>d_class = ''leaf rot'', d_confidence = 0.8, d_model = ''detection''\<rparr>,
              \<lparr>d_class = ''yellowing'', d_confidence = 0.8, d_model = ''classification''\<rparr>].
       d_class d \<noteq> ''healthy'') \<and>
   (\<exists>r. aggregate [\<lparr>d_class = ''healthy'', d_confidence = 0.9, d_model = ''classification''\<rparr>,
                   \<lparr>d_class = ''bud rot'', d_confidence = 0.6, d_model = ''detection''\<rparr>,
                   \<lparr>d_class = ''leaf rot'', d_confidence = 0.8, d_model = ''detection''\<rparr>,
                   \<lparr>d_class = ''yellowing'', d_confidence = 0.8, d_model = ''classification''\<rparr>]
         = Inr r \<and> prediction r = ''leaf rot'' \<and> confidence r = 0.8)"
proof -
  let ?a = "\<lparr>d_class = ''bud rot'', d_confidence = 0.6, d_model = ''detection''\<rparr>"
  let ?b = "\<lparr>d_class = ''leaf rot'', d_confidence = 0.8, d_model = ''detection''\<rparr>"
  let ?c = "\<lparr>d_class = ''yellowing'', d_confidence = 0.8, d_model = ''classification''\<rparr>"
  let ?D = "[\<lparr>d_class = ''healthy'', d_confidence = 0.9, d_model = ''classification''\<rparr>,
             ?a, ?b, ?c]"
  have h: "\<exists>d\<in>set ?D. d_class d \<noteq> ''healthy''" by simp
  from aggregate_first_maximum [OF h] obtain r pre m post where
    r: "aggregate ?D = Inr r" and
    split: "filter (\<lambda>d. d_class d \<noteq> ''healthy'') ?D = pre @ m # post" and
    lt: "\<forall>d\<in>set pre. d_confidence d < d_confidence m" and
    le: "\<forall>d\<in>set post. d_confidence d \<le> d_confidence m" and
    out: "prediction r = d_class m" "confidence r = d_confidence m"
    by blast
  from split have abc: "[?a, ?b, ?c] = pre @ m # post" by simp
  have "m = ?b"
  proof (cases pre)
    case Nil
    with abc have "m = ?a" "post = [?b, ?c]" by simp_all
    with le show ?thesis by simp
  next
    case (Cons p pre')
    with abc have p: "p = ?a" and rest: "[?b, ?c] = pre' @ m # post" by simp_all
    show ?thesis
    proof (cases pre')
      case Nil
      with rest show ?thesis by simp
    next
      case (Cons q pre'')
      with rest have q: "q = ?b" and rest': "[?c] = pre'' @ m # post" by simp_all
      from rest' have "m = ?c" by (cases pre'') simp_all
      with lt \<open>pre = p # pre'\<close> \<open>pre' = q # pre''\<close> q show ?thesis by simp
    qed
  qed
  with out have "prediction r = ''leaf rot''" "confidence r = 0.8" by simp_all
  with r h show ?thesis by blast
qed

section \<open>The two inference loops and the handler\<close>

lemma py_getitem_mem: "py_getitem xs i = Inr x \<Longrightarrow> x \<in> set xs"
  by (auto simp: py_getitem_def split: if_splits)

lemma detection_loop_appends:
  "detection_loop bs dets = Inr out \<Longrightarrow>
     \<exists>new. out = dets @ new \<and> length new = length bs \<and>
       (\<forall>d\<in>set new. d_model d = ''detection'' \<and> d_class d \<in> set class_names_1)"
proof (induction bs arbitrary: dets)
  case Nil
  then show ?case by simp
next
  case (Cons b bs)
  from Cons.prems obtain name where
    name: "py_getitem class_names_1 (py_int (b_cls b)) = Inr name" and
    rest: "detection_loop bs
             (dets @ [\<lparr>d_class = name, d_confidence = b_conf b, d_model = ''detection''\<rparr>]) = Inr out"
    by (auto split: sum.splits)
  from Cons.IH [OF rest] obtain new where
    new: "out = (dets @ [\<lparr>d_class = name, d_confidence = b_conf b, d_model = ''detection''\<rparr>]) @ new"
      "length new = length bs"
      "\<forall>d\<in>set new. d_model d = ''detection'' \<and> d_class d \<in> set class_names_1"
    by blast
  from name have "name \<in> set class_names_1" by (rule py_getitem_mem)
  with new show ?case
    by (intro exI [of _ "\<lparr>d_class = name, d_confidence = b_conf b, d_model = ''detection''\<rparr> # new"])
       simp
qed

lemma classification_loop_appends:
  "classification_loop ps dets = Inr out \<Longrightarrow>
     \<exists>new. out = dets @ new \<and> length new \<le> length ps \<and>
       (\<forall>d\<in>set new. d_model d = ''classification'' \<and> py_float_0_1 < d_confidence d \<and>
          d_class d \<in> set class_names_2)"
proof (induction ps arbitrary: dets)
  case Nil
  then show ?case by simp
next
  case (Cons p ps)
  obtain idx c where p: "p = (idx, c)" by (cases p)
  from Cons.prems p obtain disease where
    disease: "py_getitem class_names_2 idx = Inr disease" and
    rest: "(if c > py_float_0_1
            then classification_loop ps
                   (dets @ [\<lparr>d_class = disease, d_confidence = c, d_model = ''classification''\<rparr>])
            else classification_loop ps dets) = Inr out"
    by (auto split: sum.splits)
  from disease have mem: "disease \<in> set class_names_2" by (rule py_getitem_mem)
  show ?case
  proof (cases "c > py_float_0_1")
    case True
    with rest have "classification_loop ps
        (dets @ [\<lparr>d_class = disease, d_confidence = c, d_model = ''classification''\<rparr>]) = Inr out"
      by simp
    from Cons.IH [OF this] obtain new where
      new: "out = (dets @ [\<lparr>d_class = disease, d_confidence = c, d_model = ''classification''\<rparr>]) @ new"
        "length new \<le> length ps"
        "\<forall>d\<in>set new. d_model d = ''classification'' \<and> py_float_0_1 < d_confidence d \<and>
           d_class d \<in> set class_names_2"
      by blast
    with True mem show ?thesis
      by (intro exI [of _ "\<lparr>d_class = disease, d_confidence = c, d_model = ''classification''\<rparr> # new"])
         simp
  next
    case False
    with rest have "classification_loop ps dets = Inr out" by simp
    from Cons.IH [OF this] obtain new where
      "out = dets @ new" "length new \<le> length ps"
      "\<forall>d\<in>set new. d_model d = ''classification'' \<and> py_float_0_1 < d_confidence d \<and>
         d_class d \<in> set class_names_2"
      by blast
    then show ?thesis
      by (intro exI [of _ new]) simp
  qed
qed

lemma run_model1_appends:
  assumes "run_model1 e img dets = (Inr out, c)"
  shows "\<exists>new. out = dets @ new \<and>
           (\<forall>d\<in>set new. d_model d = ''detection'' \<and> d_class d \<in> set class_names_1)"
proof -
  from assms have "out = dets \<or> (\<exists>bs. detection_loop bs dets = Inr out)"
    by (auto simp: run_model1_def
          split: option.splits if_splits sum.splits list.splits py_attr.splits)
  then show ?thesis
  proof
    assume "out = dets"
    then show ?thesis by (intro exI [of _ "[]"]) simp
  next
    assume "\<exists>bs. detection_loop bs dets = Inr out"
    then obtain bs where "detection_loop bs dets = Inr out" by blast
    from detection_loop_appends [OF this] show ?thesis by blast
  qed
qed

lemma run_model2_appends:
  assumes "run_model2 e img dets = (Inr out, c)"
  shows "\<exists>new. out = dets @ new \<and>
           (\<forall>d\<in>set new. d_model d = ''classification'' \<and> py_float_0_1 < d_confidence d \<and>
              d_class d \<in> set class_names_2) \<and>
           (new = [] \<or>
            (\<exists>m r rs p. model2 e = Some m \<and> m img = Inr (r # rs) \<and> probs r = Obj p \<and>
               length new \<le> length (top5 p)))"
proof -
  from assms have
    "out = dets \<or>
     (\<exists>m r rs p. model2 e = Some m \<and> m img = Inr (r # rs) \<and> probs r = Obj p \<and>
        classification_loop (zip (top5 p) (top5conf p)) dets = Inr out)"
    by (auto simp: run_model2_def
          split: option.splits if_splits sum.splits list.splits py_attr.splits)
  then show ?thesis
  proof
    assume "out = dets"
    then show ?thesis by (intro exI [of _ "[]"]) simp
  next
    assume "\<exists>m r rs p. model2 e = Some m \<and> m img = Inr (r # rs) \<and> probs r = Obj p \<and>
        classification_loop (zip (top5 p) (top5conf p)) dets = Inr out"
    then obtain m r rs p where
      m: "model2 e = Some m" "m img = Inr (r # rs)" "probs r = Obj p" and
      loop: "classification_loop (zip (top5 p) (top5conf p)) dets = Inr out"
      by blast
    from classification_loop_appends [OF loop] obtain new where
      new: "out = dets @ new" "length new \<le> length (zip (top5 p) (top5conf p))"
        "\<forall>d\<in>set new. d_model d = ''classification'' \<and> py_float_0_1 < d_confidence d \<and>
           d_class d \<in> set class_names_2"
      by blast
    from new(2) have "length new \<le> length (top5 p)" by simp
    with m new show ?thesis by blast
  qed
qed

lemma predict_json:
  assumes "body (fst (predict e fs)) = Json r"
  shows "\<exists>file img ds cs c1 c2.
           fs ''file'' = Some file \<and> image_open e (content file) = Inr img \<and>
           run_model1 e img [] = (Inr ds, c1) \<and>
           run_model2 e img ds = (Inr cs, c2) \<and>
           aggregate cs = Inr r \<and>
           predict e fs = (\<lparr>status = 200, body = Json r\<rparr>, ImageOpen # c1 @ c2)"
  using assms
  by (auto simp: predict_def predict_try_def
        split: option.splits if_splits sum.splits prod.splits)

lemma predict_json_parts:
  assumes "body (fst (predict e fs)) = Json r"
  shows "\<exists>file img ds cs c1 c2.
           fs ''file'' = Some file \<and> image_open e (content file) = Inr img \<and>
           run_model1 e img [] = (Inr ds, c1) \<and>
           run_model2 e img ds = (Inr (ds @ cs), c2) \<and>
           aggregate (ds @ cs) = Inr r \<and>
           (\<forall>d\<in>set ds. d_model d = ''detection'' \<and> d_class d \<in> set class_names_1) \<and>
           (\<forall>d\<in>set cs. d_model d = ''classification'' \<and> py_float_0_1 < d_confidence d \<and>
              d_class d \<in> set class_names_2) \<and>
           (cs = [] \<or>
            (\<exists>m x xs p. model2 e = Some m \<and> m img = Inr (x # xs) \<and> probs x = Obj p \<and>
               length cs \<le> length (top5 p)))"
proof -
  from predict_json [OF assms] obtain upl img ds out c1 c2 where
    f: "fs ''file'' = Some upl" "image_open e (content upl) = Inr img" and
    m1: "run_model1 e img [] = (Inr ds, c1)" and
    m2: "run_model2 e img ds = (Inr out, c2)" and
    agg: "aggregate out = Inr r"
    by blast
  from run_model1_appends [OF m1] have
    ds: "\<forall>d\<in>set ds. d_model d = ''detection'' \<and> d_class d \<in> set class_names_1"
    by simp
  from run_model2_appends [OF m2] obtain cs where
    cs: "out = ds @ cs"
      "\<forall>d\<in>set cs. d_model d = ''classification'' \<and> py_float_0_1 < d_confidence d \<and>
         d_class d \<in> set class_names_2"
      "cs = [] \<or>
       (\<exists>m x xs p. model2 e = Some m \<and> m img = Inr (x # xs) \<and> probs x = Obj p \<and>
          length cs \<le> length (top5 p))"
    by blast
  from f m1 m2 agg ds cs show ?thesis by blast
qed

lemma aggregate_all_detections:
  "aggregate dets = Inr r \<Longrightarrow> all_detections r = dets \<and>
     total_diseases r = length (non_healthy dets)"
  by (auto simp: aggregate_def split: if_splits sum.splits)

lemma predict_both_models_leaf_upload:
  "predict both_models leaf_upload =
     (\<lparr>status = 200,
       body = Json \<lparr>prediction = ''bud rot'', confidence = 0.8,
                    all_detections =
                      [\<lparr>d_class = ''bud rot'', d_confidence = 0.8, d_model = ''detection''\<rparr>,
                       \<lparr>d_class = ''healthy'', d_confidence = 0.9, d_model = ''classification''\<rparr>],
                    total_diseases = 1\<rparr>\<rparr>,
      [ImageOpen, Model1Predict, Model2Predict])"
  by (simp add: predict_def predict_try_def both_models_def leaf_upload_def run_model1_def
        run_model2_def py_getitem_def py_int_def class_names_1_def class_names_2_def
        py_float_0_1_def aggregate_def non_healthy_def py_max_confidence_def)

section \<open>Properties of the handler\<close>




text \<open>
  Claim C8. Whatever branch of the aggregation fires, the \<open>all_detections\<close> of the answer
  is the finding list the aggregation was given; in a successful answer of the handler it
  is the findings of the detection model followed by the findings of the classification
  model.
\<close>

theorem all_detections_is_concatenation:
  "(\<exists>r. aggregate dets = Inr r \<and> all_detections r = dets) \<and>
   (body (fst (predict e fs)) = Json r' \<longrightarrow>
      (\<exists>img ds cs c1 c2.
         run_model1 e img [] = (Inr ds, c1) \<and> run_model2 e img ds = (Inr (ds @ cs), c2) \<and>
         (\<forall>d\<in>set ds. d_model d = ''detection'') \<and>
         (\<forall>d\<in>set cs. d_model d = ''classification'') \<and>
         all_detections r' = ds @ cs))"
proof (intro conjI impI)
  show "\<exists>r. aggregate dets = Inr r \<and> all_detections r = dets"
  proof (cases "non_healthy dets = []")
    case False
    from aggregate_non_healthy_branch [OF False] show ?thesis by auto
  next
    case True
    show ?thesis
    proof (cases "dets = []")
      case True
      then show ?thesis by (simp add: aggregate_empty_branch)
    next
      case False
      from aggregate_healthy_branch [OF True False] show ?thesis by auto
    qed
  qed
next
  assume "body (fst (predict e fs)) = Json r'"
  from predict_json_parts [OF this] obtain img ds cs c1 c2 where
    m1: "run_model1 e img [] = (Inr ds, c1)" and
    m2: "run_model2 e img ds = (Inr (ds @ cs), c2)" and
    agg: "aggregate (ds @ cs) = Inr r'" and
    ds: "\<forall>d\<in>set ds. d_model d = ''detection'' \<and> d_class d \<in> set class_names_1" and
    cs: "\<forall>d\<in>set cs. d_model d = ''classification'' \<and> py_float_0_1 < d_confidence d \<and>
           d_class d \<in> set class_names_2"
    by blast
  from aggregate_all_detections [OF agg] have "all_detections r' = ds @ cs" by simp
  with m1 m2 ds cs show "\<exists>img ds cs c1 c2.
         run_model1 e img [] = (Inr ds, c1) \<and> run_model2 e img ds = (Inr (ds @ cs), c2) \<and>
         (\<forall>d\<in>set ds. d_model d = ''detection'') \<and>
         (\<forall>d\<in>set cs. d_model d = ''classification'') \<and>
         all_detections r' = ds @ cs"
    by blast
qed

theorem all_detections_is_concatenation_witness:
  "\<exists>r. body (fst (predict both_models leaf_upload)) = Json r \<and>
     (\<exists>img ds cs c1 c2.
        run_model1 both_models img [] = (Inr ds, c1) \<and>
        run_model2 both_models img ds = (Inr (ds @ cs), c2) \<and>
        all_detections r = ds @ cs) \<and>
     all_detections r =
       [\<lparr>d_class = ''bud rot'', d_confidence = 0.8, d_model = ''detection''\<rparr>] @
       [\<lparr>d_class = ''healthy'', d_confidence = 0.9, d_model = ''classification''\<rparr>]"
proof -
  let ?r = "\<lparr>prediction = ''bud rot'', confidence = 0.8,
             all_detections =
               [\<lparr>d_class = ''bud rot'', d_confidence = 0.8, d_model = ''detection''\<rparr>,
                \<lparr>d_class = ''healthy'', d_confidence = 0.9, d_model = ''classification''\<rparr>],
             total_diseases = 1\<rparr>"
  have b: "body (fst (predict both_models leaf_upload)) = Json ?r"
    by (simp add: predict_both_models_leaf_upload)
  from all_detections_is_concatenation [of "[]" both_models leaf_upload ?r] b have
    "\<exists>img ds cs c1 c2.
        run_model1 both_models img [] = (Inr ds, c1) \<and>
        run_model2 both_models img ds = (Inr (ds @ cs), c2) \<and>
        all_detections ?r = ds @ cs"
    by blast
  with b show ?thesis
    by (intro exI [of _ ?r]) simp
qed

text \<open>
  Claim C9, as the code has it. With no model loaded the handler answers 500
  \<open>Models not loaded\<close>, whatever the request. With at least one model loaded, a request
  without a \<open>file\<close> field is answered 400 \<open>No file part\<close> and a request whose file has an
  empty name is answered 400 \<open>No selected file\<close>. In all three cases the handler calls
  neither the image decoder nor a model.

  The claim as written promises 400 for every request without a \<open>file\<close> field; the
  check of line 64 comes first, so a service with no model answers 500 to such a request.
\<close>

theorem predict_guards:
  "(model1 e = None \<and> model2 e = None \<longrightarrow>
      predict e fs = (\<lparr>status = 500, body = Error ''Models not loaded''\<rparr>, [])) \<and>
   (\<not> (model1 e = None \<and> model2 e = None) \<and> fs ''file'' = None \<longrightarrow>
      predict e fs = (\<lparr>status = 400, body = Error ''No file part''\<rparr>, [])) \<and>
   (\<not> (model1 e = None \<and> model2 e = None) \<and> fs ''file'' = Some upl \<and> filename upl = '''' \<longrightarrow>
      predict e fs = (\<lparr>status = 400, body = Error ''No selected file''\<rparr>, []))"
  by (simp add: predict_def)

theorem predict_guards_witness:
  "predict no_models leaf_upload = (\<lparr>status = 500, body = Error ''Models not loaded''\<rparr>, []) \<and>
   predict both_models Map.empty = (\<lparr>status = 400, body = Error ''No file part''\<rparr>, []) \<and>
   predict both_models unnamed_upload =
     (\<lparr>status = 400, body = Error ''No selected file''\<rparr>, [])"
proof -
  have none: "model1 no_models = None \<and> model2 no_models = None"
    by (simp add: no_models_def)
  have some: "\<not> (model1 both_models = None \<and> model2 both_models = None)"
    by (simp add: both_models_def)
  have missing: "(Map.empty :: files) ''file'' = None" by simp
  have unnamed: "unnamed_upload ''file'' = Some \<lparr>filename = '''', content = []\<rparr>"
    "filename \<lparr>filename = '''', content = []\<rparr> = ''''"
    by (simp_all add: unnamed_upload_def)
  from predict_guards [of no_models leaf_upload] none
  have a: "predict no_models leaf_upload =
      (\<lparr>status = 500, body = Error ''Models not loaded''\<rparr>, [])"
    by blast
  from predict_guards [of both_models Map.empty] some missing
  have b: "predict both_models Map.empty =
      (\<lparr>status = 400, body = Error ''No file part''\<rparr>, [])"
    by blast
  from predict_guards [of both_models unnamed_upload "\<lparr>filename = '''', content = []\<rparr>"]
    some unnamed
  have c: "predict both_models unnamed_upload =
      (\<lparr>status = 400, body = Error ''No selected file''\<rparr>, [])"
    by blast
  from a b c show ?thesis by blast
qed

theorem missing_file_without_models_counterexample:
  "(Map.empty :: files) ''file'' = None \<and>
   predict no_models Map.empty = (\<lparr>status = 500, body = Error ''Models not loaded''\<rparr>, []) \<and>
   status (fst (predict no_models Map.empty)) \<noteq> 400 \<and>
   body (fst (predict no_models Map.empty)) \<noteq> Error ''No file part''"
  by (simp add: predict_def no_models_def)

text \<open>
  Claim C10. The detection vocabulary has five classes and \<open>healthy\<close> is not one of them.
  In a successful answer every finding of the detection model has a class of that
  vocabulary, so it is not \<open>healthy\<close>, and \<open>total_diseases\<close> is at least the number of
  detection findings in \<open>all_detections\<close>.
\<close>

theorem detection_findings_non_healthy:
  assumes "body (fst (predict e fs)) = Json r"
  shows "length class_names_1 = 5 \<and> ''healthy'' \<notin> set class_names_1 \<and>
         (\<forall>d\<in>set (all_detections r). d_model d = ''detection'' \<longrightarrow>
            d_class d \<in> set class_names_1 \<and> d_class d \<noteq> ''healthy'') \<and>
         length (filter (\<lambda>d. d_model d = ''detection'') (all_detections r)) \<le> total_diseases r"
proof -
  from predict_json_parts [OF assms] obtain ds cs where
    agg: "aggregate (ds @ cs) = Inr r" and
    ds: "\<forall>d\<in>set ds. d_model d = ''detection'' \<and> d_class d \<in> set class_names_1" and
    cs: "\<forall>d\<in>set cs. d_model d = ''classification'' \<and> py_float_0_1 < d_confidence d \<and>
           d_class d \<in> set class_names_2"
    by blast
  from aggregate_all_detections [OF agg] have
    all: "all_detections r = ds @ cs" and
    total: "total_diseases r = length (non_healthy (ds @ cs))"
    by simp_all
  have vocab: "length class_names_1 = 5" "''healthy'' \<notin> set class_names_1"
    by (simp_all add: class_names_1_def)
  have members: "\<forall>d\<in>set (all_detections r). d_model d = ''detection'' \<longrightarrow>
      d_class d \<in> set class_names_1 \<and> d_class d \<noteq> ''healthy''"
  proof (intro ballI impI)
    fix d assume d: "d \<in> set (all_detections r)" "d_model d = ''detection''"
    with all cs have "d \<in> set ds" by auto
    with ds have "d_class d \<in> set class_names_1" by simp
    with vocab(2) show "d_class d \<in> set class_names_1 \<and> d_class d \<noteq> ''healthy''" by auto
  qed
  from ds have "filter (\<lambda>d. d_model d = ''detection'') ds = ds"
    by (auto simp: filter_id_conv)
  moreover from cs have "filter (\<lambda>d. d_model d = ''detection'') cs = []"
    by (auto simp: filter_empty_conv)
  ultimately have det: "filter (\<lambda>d. d_model d = ''detection'') (all_detections r) = ds"
    using all by simp
  from ds vocab(2) have "\<forall>d\<in>set ds. d_class d \<noteq> ''healthy''" by auto
  then have "filter (\<lambda>d. d_class d \<noteq> ''healthy'') ds = ds"
    by (auto simp: filter_id_conv)
  then have "length ds \<le> length (non_healthy (ds @ cs))"
    by (simp add: non_healthy_def)
  with det total have count:
    "length (filter (\<lambda>d. d_model d = ''detection'') (all_detections r)) \<le> total_diseases r"
    by simp
  from vocab members count show ?thesis by blast
qed

theorem detection_findings_non_healthy_witness:
  "\<exists>r. body (fst (predict both_models leaf_upload)) = Json r \<and>
     length (filter (\<lambda>d. d_model d = ''detection'') (all_detections r)) = 1 \<and>
     length (filter (\<lambda>d. d_model d = ''detection'') (all_detections r)) \<le> total_diseases r \<and>
     total_diseases r = 1"
proof -
  let ?r = "\<lparr>prediction = ''bud rot'', confidence = 0.8,
             all_detections =
               [\<lparr>d_class = ''bud rot'', d_confidence = 0.8, d_model = ''detection''\<rparr>,
                \<lparr>d_class = ''healthy'', d_confidence = 0.9, d_model = ''classification''\<rparr>],
             total_diseases = 1\<rparr>"
  have b: "body (fst (predict both_models leaf_upload)) = Json ?r"
    by (simp add: predict_both_models_leaf_upload)
  from detection_findings_non_healthy [OF b] have
    "length (filter (\<lambda>d. d_model d = ''detection'') (all_detections ?r)) \<le> total_diseases ?r"
    by blast
  with b show ?thesis
    by (intro exI [of _ ?r]) simp
qed

end
